theory Spec2Isabelle
  imports Main "HOL-Library.Word"
begin

section \<open>Values that cross the plugin boundary\<close>

text \<open>
  The bridge (\<^verbatim>\<open>src/src/bridge.cc\<close>) passes machine integers and raw pointers between the
  host and the engine. A pointer is the 64-bit address it holds; host memory is a function
  from addresses to bytes. \<^verbatim>\<open>std::int32_t\<close> and \<^verbatim>\<open>int\<close> are 32-bit words, \<^verbatim>\<open>uint\<close> is the
  host's 32-bit \<^verbatim>\<open>unsigned int\<close>, \<^verbatim>\<open>std::uint64_t\<close> and \<^verbatim>\<open>size_t\<close> are 64-bit words.
\<close>

type_synonym u8 = "8 word"
type_synonym int32 = "32 word"
type_synonym uint = "32 word"
type_synonym uint64 = "64 word"
type_synonym size_t = "64 word"
type_synonym addr = "64 word"
type_synonym memory = "addr \<Rightarrow> u8"

text \<open>
  \<^verbatim>\<open>rust::Str\<close> is a borrowed string slice: the address of its first byte and its length in
  bytes, read by \<^verbatim>\<open>data()\<close> and \<^verbatim>\<open>size()\<close>.
\<close>

record Str =
  data :: addr
  size_Str :: size_t

text \<open>The bytes a pointer and a length denote in a given memory.\<close>

definition load :: "memory \<Rightarrow> addr \<Rightarrow> nat \<Rightarrow> u8 list" where
  "load m p n = map (\<lambda>i. m (p + word_of_nat i)) [0..<n]"

section \<open>The bridge\<close>

text \<open>
  Every function of the bridge makes one call to a function declared in a header that is
  not part of the sources (\<^verbatim>\<open>bridge.h\<close>, \<^verbatim>\<open>bridge.rs.h\<close>). Each such callee is a parameter of
  the model: a transformer of the state \<open>'w\<close> of everything outside the bridge, returning
  its result with the new state. The bridge has no state of its own.
\<close>

text \<open>
  \<^verbatim>\<open>void mysql_log_write(std::int32_t level, rust::Str msg) {
      mysql_log_write_raw(level, msg.data(), msg.size());
  }\<close>
\<close>

definition mysql_log_write ::
  "(int32 \<Rightarrow> addr \<Rightarrow> size_t \<Rightarrow> 'w \<Rightarrow> 'w) \<Rightarrow> int32 \<Rightarrow> Str \<Rightarrow> 'w \<Rightarrow> 'w" where
  "mysql_log_write mysql_log_write_raw level msg w =
     mysql_log_write_raw level (data msg) (size_Str msg) w"

text \<open>
  \<^verbatim>\<open>int ha_yydb_core_init() {
      rust_init();
      // do other stuff
      return 0;
  }\<close>
  The call is a statement: whatever \<^verbatim>\<open>rust_init\<close> yields (a value of some type \<open>'r\<close>) is
  dropped.
\<close>

definition ha_yydb_core_init :: "('w \<Rightarrow> 'r \<times> 'w) \<Rightarrow> 'w \<Rightarrow> int32 \<times> 'w" where
  "ha_yydb_core_init rust_init w = (case rust_init w of (_, w') \<Rightarrow> (0, w'))"

text \<open>
  \<^verbatim>\<open>int ha_yydb_core_deinit() {
      rust_deinit();
      // do other stuff
      return 0;
  }\<close>
\<close>

definition ha_yydb_core_deinit :: "('w \<Rightarrow> 'r \<times> 'w) \<Rightarrow> 'w \<Rightarrow> int32 \<times> 'w" where
  "ha_yydb_core_deinit rust_deinit w = (case rust_deinit w of (_, w') \<Rightarrow> (0, w'))"

text \<open>
  \<^verbatim>\<open>std::uint64_t ha_yydb_open_table(const char* name) {
      rust::Str name_str(name);
      return open_table(name_str);
  }\<close>
  The constructor \<^verbatim>\<open>rust::Str(const char*)\<close> belongs to the binding library; it is the
  parameter \<open>Str_of\<close>, which may read the state (the memory the pointer refers to).
\<close>

definition ha_yydb_open_table ::
  "(addr \<Rightarrow> 'w \<Rightarrow> Str) \<Rightarrow> (Str \<Rightarrow> 'w \<Rightarrow> uint64 \<times> 'w) \<Rightarrow> addr \<Rightarrow> 'w \<Rightarrow> uint64 \<times> 'w" where
  "ha_yydb_open_table Str_of open_table name w =
     (let name_str = Str_of name w in open_table name_str w)"

text \<open>
  \<^verbatim>\<open>void ha_yydb_close_table(std::uint64_t table_id) {
      close_table(table_id);
  }\<close>
\<close>

definition ha_yydb_close_table :: "(uint64 \<Rightarrow> 'w \<Rightarrow> 'w) \<Rightarrow> uint64 \<Rightarrow> 'w \<Rightarrow> 'w" where
  "ha_yydb_close_table close_table table_id w = close_table table_id w"

text \<open>
  \<^verbatim>\<open>void ha_yydb_insert_row(uint64_t table_id, const unsigned char* row, uint length) {
      insert_row(table_id, (const uint8_t*)row, length);
  }\<close>
  The cast changes the pointer's type, not the address; \<open>len\<close> stands for \<^verbatim>\<open>length\<close>.
\<close>

definition ha_yydb_insert_row ::
  "(uint64 \<Rightarrow> addr \<Rightarrow> uint \<Rightarrow> 'w \<Rightarrow> 'w) \<Rightarrow> uint64 \<Rightarrow> addr \<Rightarrow> uint \<Rightarrow> 'w \<Rightarrow> 'w" where
  "ha_yydb_insert_row insert_row table_id row len w = insert_row table_id row len w"

subsection \<open>Observing the calls the bridge makes\<close>

text \<open>
  To speak about which calls reach the other side, the callees can be instantiated by
  recorders: the outside state is then the list of calls received so far, oldest first.
\<close>

datatype call =
    Mysql_log_write_raw int32 addr size_t
  | Rust_init
  | Rust_deinit
  | Open_table Str
  | Close_table uint64
  | Insert_row uint64 addr uint

definition rec_log_write_raw :: "int32 \<Rightarrow> addr \<Rightarrow> size_t \<Rightarrow> call list \<Rightarrow> call list" where
  "rec_log_write_raw level p n cs = cs @ [Mysql_log_write_raw level p n]"

definition rec_insert_row :: "uint64 \<Rightarrow> addr \<Rightarrow> uint \<Rightarrow> call list \<Rightarrow> call list" where
  "rec_insert_row table_id p n cs = cs @ [Insert_row table_id p n]"

definition rec_init :: "'r \<Rightarrow> call list \<Rightarrow> 'r \<times> call list" where
  "rec_init r cs = (r, cs @ [Rust_init])"

definition rec_deinit :: "'r \<Rightarrow> call list \<Rightarrow> 'r \<times> call list" where
  "rec_deinit r cs = (r, cs @ [Rust_deinit])"

section \<open>The engine behind the bridge\<close>

text \<open>
  The functions the bridge calls (\<^verbatim>\<open>rust_init\<close>, \<^verbatim>\<open>rust_deinit\<close>, \<^verbatim>\<open>open_table\<close>,
  \<^verbatim>\<open>close_table\<close>, \<^verbatim>\<open>insert_row\<close>) are written in the Rust part of the repository, which is
  not among the sources. Every definition of this section is therefore modelled from the
  specification (sections 3, 4, 6, 7 and 9), as its comment says.
\<close>

text \<open>Modelled from the spec: the severity levels of a LogRecord (section 3), absent from
  the sources; ordered trace < debug < info < warn < error.\<close>

datatype level = Trace | Debug | Info | Warn | Error

text \<open>Modelled from the spec: LogRecord (section 3), a severity and a message.\<close>

record LogRecord =
  severity :: level
  message :: string

text \<open>Modelled from the spec: the states of the Lifecycle Manager (section 4.4).\<close>

datatype lifecycle = Uninitialized | Initializing | Running | Deinitializing | Shutdown

text \<open>Modelled from the spec: the error kinds of section 7.\<close>

datatype error =
    UnknownHandle | InvalidRow | StorageFailure | ResourceExhausted
  | AlreadyOpenConflict | AlreadyInitialized | NotRunning | InitFailure

text \<open>Modelled from the spec: TableHandle (section 3), an opaque 64-bit identifier.\<close>

type_synonym TableHandle = uint64

text \<open>Modelled from the spec: TableState (section 3), the per-table state of the absent
  engine, reduced to what the properties below speak about: the name the table was opened under and
  its storage, the rows accepted so far in the order they were appended.\<close>

record TableState =
  table_name :: "u8 list"
  rows :: "u8 list list"

text \<open>Modelled from the spec: the process-wide state of the absent engine (section 2): the
  Lifecycle Manager's state, the Table Registry (handles with their table states, in the
  order of opening), the counter the registry takes fresh identifiers from, and the
  records the Logging Sink has emitted, oldest first.\<close>

record core =
  phase :: lifecycle
  registry :: "(TableHandle \<times> TableState) list"
  next_handle :: nat
  sink :: "LogRecord list"

text \<open>Modelled from the spec: the engine's configuration: the configured maximum row
  length (section 4.3) and the policy for opening a name twice (section 9, first open
  question), both absent from the sources.\<close>

record config =
  max_row_length :: nat
  exclusive_names :: bool

text \<open>Modelled from the spec: the state of a process that has not called init yet
  (section 4.4). Identifiers start at 1, so that 0 can stand for "no table" (section 6).\<close>

definition boot :: core where
  "boot = \<lparr>phase = Uninitialized, registry = [], next_handle = 1, sink = []\<rparr>"

text \<open>Modelled from the spec: the Logging Sink's \<open>write(level, message)\<close> (section 4.1).\<close>

definition sink_write :: "level \<Rightarrow> string \<Rightarrow> core \<Rightarrow> core" where
  "sink_write lvl msg s = s\<lparr>sink := sink s @ [\<lparr>severity = lvl, message = msg\<rparr>]\<rparr>"

text \<open>Modelled from the spec: the handles that are currently open, that is, those with an
  entry in the Table Registry (section 4.2).\<close>

definition open_handles :: "core \<Rightarrow> TableHandle set" where
  "open_handles s = fst ` set (registry s)"

text \<open>Modelled from the spec: the registry's \<open>lookup(handle)\<close> (section 4.2), which fails
  with UnknownHandle on a miss.\<close>

definition registry_lookup :: "core \<Rightarrow> TableHandle \<Rightarrow> error + TableState" where
  "registry_lookup s h =
     (case map_of (registry s) h of None \<Rightarrow> Inl UnknownHandle | Some t \<Rightarrow> Inr t)"

text \<open>Modelled from the spec: the Lifecycle Manager's \<open>init()\<close> (section 4.4). The argument
  says whether every subsystem could be constructed. A failed operation returns its error
  with the state it leaves behind.\<close>

definition lifecycle_init :: "bool \<Rightarrow> core \<Rightarrow> (error + unit) \<times> core" where
  "lifecycle_init constructed s =
     (if phase s \<noteq> Uninitialized then (Inl AlreadyInitialized, s)
      else let s1 = s\<lparr>phase := Initializing\<rparr> in
        if constructed then (Inr (), s1\<lparr>registry := [], phase := Running\<rparr>)
        else (Inl InitFailure, s1\<lparr>phase := Uninitialized\<rparr>))"

text \<open>Modelled from the spec: the registry's \<open>open(name)\<close> (section 4.2). The flag says
  whether storage could be allocated. Identifiers increase and are never reused (section
  4.2, tie-break policy), so once the 64-bit identifiers are used up no handle can be
  allocated any more, which is reported as ResourceExhausted.\<close>

definition registry_open ::
  "config \<Rightarrow> bool \<Rightarrow> u8 list \<Rightarrow> core \<Rightarrow> (error + TableHandle) \<times> core" where
  "registry_open cfg allocated name s =
     (if exclusive_names cfg \<and> name \<in> set (map (\<lambda>e. table_name (snd e)) (registry s))
      then (Inl AlreadyOpenConflict, s)
      else if allocated \<and> next_handle s < 2 ^ 64
      then (Inr (word_of_nat (next_handle s)),
            s\<lparr>registry := registry s
                 @ [(word_of_nat (next_handle s), \<lparr>table_name = name, rows = []\<rparr>)],
              next_handle := Suc (next_handle s)\<rparr>)
      else (Inl ResourceExhausted, s))"

text \<open>Modelled from the spec: the registry's \<open>close(handle)\<close> (section 4.2): releases the
  entry, or fails with UnknownHandle.\<close>

definition registry_close :: "TableHandle \<Rightarrow> core \<Rightarrow> (error + unit) \<times> core" where
  "registry_close h s =
     (case registry_lookup s h of
        Inl e \<Rightarrow> (Inl e, s)
      | Inr t \<Rightarrow> (Inr (), s\<lparr>registry := filter (\<lambda>e. fst e \<noteq> h) (registry s)\<rparr>))"

text \<open>Modelled from the spec: appending one accepted row to the storage of a table.\<close>

definition append_row ::
  "TableHandle \<Rightarrow> u8 list \<Rightarrow> TableHandle \<times> TableState \<Rightarrow> TableHandle \<times> TableState" where
  "append_row h r e = (if fst e = h then (fst e, (snd e)\<lparr>rows := rows (snd e) @ [r]\<rparr>) else e)"

text \<open>Modelled from the spec: the Row Ingestion Pipeline's \<open>insert(handle, bytes, length)\<close>
  (section 4.3): the handle is looked up first, then the length is validated against the
  configured maximum, then exactly \<open>length\<close> bytes are appended after the rows accepted
  before; the flag says whether the storage took the row.\<close>

definition pipeline_insert ::
  "config \<Rightarrow> bool \<Rightarrow> TableHandle \<Rightarrow> u8 list \<Rightarrow> nat \<Rightarrow> core \<Rightarrow> (error + unit) \<times> core" where
  "pipeline_insert cfg stored h bytes len s =
     (case registry_lookup s h of
        Inl e \<Rightarrow> (Inl e, s)
      | Inr t \<Rightarrow>
          if len = 0 \<or> max_row_length cfg < len then (Inl InvalidRow, s)
          else if stored
          then (Inr (), s\<lparr>registry := map (append_row h (take len bytes)) (registry s)\<rparr>)
          else (Inl StorageFailure, s))"

text \<open>Modelled from the spec: the forced close of one table at teardown, with its logged
  warning (section 4.4).\<close>

definition force_close :: "TableHandle \<Rightarrow> core \<Rightarrow> core" where
  "force_close h s = sink_write Warn ''table closed at shutdown'' (snd (registry_close h s))"

text \<open>Modelled from the spec: the Lifecycle Manager's \<open>deinit()\<close> (section 4.4).\<close>

definition lifecycle_deinit :: "core \<Rightarrow> (error + unit) \<times> core" where
  "lifecycle_deinit s =
     (if phase s \<noteq> Running then (Inl NotRunning, s)
      else let s1 = s\<lparr>phase := Deinitializing\<rparr>;
               s2 = fold force_close (map fst (registry s1)) s1
           in (Inr (), s2\<lparr>phase := Shutdown\<rparr>))"

subsection \<open>The engine's side of the boundary\<close>

text \<open>Modelled from the spec: the message logged for an error kind (the wording is not
  specified; only the severity is).\<close>

fun error_text :: "error \<Rightarrow> string" where
  "error_text UnknownHandle = ''unknown handle''"
| "error_text InvalidRow = ''invalid row''"
| "error_text StorageFailure = ''storage failure''"
| "error_text ResourceExhausted = ''resource exhausted''"
| "error_text AlreadyOpenConflict = ''already open''"
| "error_text AlreadyInitialized = ''already initialized''"
| "error_text NotRunning = ''not running''"
| "error_text InitFailure = ''init failure''"

text \<open>Modelled from the spec: \<^verbatim>\<open>rust_init\<close>, the engine's entry point behind \<open>core_init\<close>
  (section 6); it yields the outcome of the Lifecycle Manager's \<open>init()\<close>.\<close>

definition engine_rust_init :: "bool \<Rightarrow> core \<Rightarrow> (error + unit) \<times> core" where
  "engine_rust_init constructed s = lifecycle_init constructed s"

text \<open>Modelled from the spec: \<^verbatim>\<open>rust_deinit\<close>, the engine's entry point behind \<open>core_deinit\<close>
  (section 6); it yields the outcome of the Lifecycle Manager's \<open>deinit()\<close>.\<close>

definition engine_rust_deinit :: "core \<Rightarrow> (error + unit) \<times> core" where
  "engine_rust_deinit s = lifecycle_deinit s"

text \<open>Modelled from the spec: \<^verbatim>\<open>close_table\<close> as the bridge calls it (sections 6, 7 and 9):
  it has no return channel, so the result of the registry's close is turned into a logged
  side effect; a close of a handle that is not open is a no-op with a logged warning
  (section 4.2).\<close>

definition engine_close_table :: "TableHandle \<Rightarrow> core \<Rightarrow> core" where
  "engine_close_table h s =
     (case registry_close h s of
        (Inl e, s') \<Rightarrow> sink_write Warn (error_text e) s'
      | (Inr u, s') \<Rightarrow> s')"

text \<open>Modelled from the spec: \<^verbatim>\<open>insert_row\<close> as the bridge calls it (sections 6, 7 and 9):
  the row is the \<open>length\<close> bytes at the pointer in the host's memory; a failure of the
  pipeline is logged at error severity.\<close>

definition engine_insert_row ::
  "config \<Rightarrow> memory \<Rightarrow> bool \<Rightarrow> TableHandle \<Rightarrow> addr \<Rightarrow> uint \<Rightarrow> core \<Rightarrow> core" where
  "engine_insert_row cfg m stored h row len s =
     (case pipeline_insert cfg stored h (load m row (unat len)) (unat len) s of
        (Inl e, s') \<Rightarrow> sink_write Error (error_text e) s'
      | (Inr u, s') \<Rightarrow> s')"

subsection \<open>Sequences of requests\<close>

text \<open>Modelled from the spec: the operations of sections 4.2 to 4.4 as requests, each
  with what the environment decides for it (whether construction, allocation or storage
  succeeds), and their replies.\<close>

datatype request =
    Init bool
  | Deinit
  | Open "u8 list" bool
  | Close TableHandle
  | Insert TableHandle "u8 list" nat bool

text \<open>Modelled from the spec: what an operation answers: success, the handle of a
  successful open, or one of the error kinds of section 7.\<close>

datatype reply = Done | Opened TableHandle | Failed error

text \<open>Modelled from the spec: the reply for the result of init, deinit, close or insert.\<close>

fun reply_of :: "error + unit \<Rightarrow> reply" where
  "reply_of (Inl e) = Failed e"
| "reply_of (Inr u) = Done"

text \<open>Modelled from the spec: the reply for the result of open.\<close>

fun opened_of :: "error + TableHandle \<Rightarrow> reply" where
  "opened_of (Inl e) = Failed e"
| "opened_of (Inr h) = Opened h"

text \<open>Modelled from the spec: one request served by the operation of sections 4.2 to 4.4
  it names. No table operation consults the lifecycle state: the specification lists no
  such failure for open, close or insert.\<close>

fun serve :: "config \<Rightarrow> request \<Rightarrow> core \<Rightarrow> reply \<times> core" where
  "serve cfg (Init c) s = (case lifecycle_init c s of (r, s') \<Rightarrow> (reply_of r, s'))"
| "serve cfg Deinit s = (case lifecycle_deinit s of (r, s') \<Rightarrow> (reply_of r, s'))"
| "serve cfg (Open name a) s =
     (case registry_open cfg a name s of (r, s') \<Rightarrow> (opened_of r, s'))"
| "serve cfg (Close h) s = (case registry_close h s of (r, s') \<Rightarrow> (reply_of r, s'))"
| "serve cfg (Insert h b n st) s =
     (case pipeline_insert cfg st h b n s of (r, s') \<Rightarrow> (reply_of r, s'))"

text \<open>Modelled from the spec: a process lifetime, as the requests served one after the
  other, each in the state the one before left.\<close>

fun serve_all :: "config \<Rightarrow> request list \<Rightarrow> core \<Rightarrow> reply list \<times> core" where
  "serve_all cfg [] s = ([], s)"
| "serve_all cfg (q # qs) s =
     (case serve cfg q s of (r, s') \<Rightarrow>
        (case serve_all cfg qs s' of (rs, s'') \<Rightarrow> (r # rs, s'')))"

text \<open>Modelled from the spec: the handles a sequence of replies returned, in the order of
  the opens.\<close>

fun handles_of :: "reply list \<Rightarrow> TableHandle list" where
  "handles_of [] = []"
| "handles_of (Opened h # rs) = h # handles_of rs"
| "handles_of (r # rs) = handles_of rs"

subsection \<open>Invariants of the registry\<close>

text \<open>Modelled from the spec: an invariant of the modelled registry. Every open handle was
  taken from the counter before its present value.\<close>

definition below_counter :: "core \<Rightarrow> bool" where
  "below_counter s = (\<forall>k \<in> open_handles s. unat k < next_handle s)"

text \<open>Modelled from the spec: a stale handle of the modelled registry (section 4.2): issued
  earlier, and not open now.\<close>

definition stale :: "TableHandle \<Rightarrow> core \<Rightarrow> bool" where
  "stale h s = (unat h < next_handle s \<and> h \<notin> open_handles s)"

subsection \<open>An example state\<close>

text \<open>Modelled from the spec: a state of the modelled engine, used as a concrete input. A
  running engine with one open table, handle 1, named "t1", holding the row "abc".
  It is the state after init, open("t1") and insert(1, "abc", 3) (lemma
  \<open>one_table_reached\<close>).\<close>

definition one_table :: core where
  "one_table = \<lparr>phase = Running,
     registry = [(1, \<lparr>table_name = [116, 49], rows = [[97, 98, 99]]\<rparr>)],
     next_handle = 2, sink = []\<rparr>"

section \<open>Properties of the bridge\<close>

text \<open>
  C8. \<^verbatim>\<open>ha_yydb_core_init\<close> and \<^verbatim>\<open>ha_yydb_core_deinit\<close> return 0 on every invocation: for
  every engine entry point and every state the status is 0. The outcome of the engine
  call is never inspected: two engine entry points \<open>f\<close> and \<open>g\<close> that differ in any way
  (also in the type of what they yield), run in any two states, give the same status; and
  an invocation makes exactly one call to the engine, whatever that call answers.
\<close>

theorem core_init_deinit_always_zero:
  "fst (ha_yydb_core_init rust_init w) = 0
   \<and> fst (ha_yydb_core_deinit rust_deinit w) = 0
   \<and> fst (ha_yydb_core_init f w) = fst (ha_yydb_core_init g w')
   \<and> fst (ha_yydb_core_deinit f w) = fst (ha_yydb_core_deinit g w')
   \<and> ha_yydb_core_init (rec_init r) cs = (0, cs @ [Rust_init])
   \<and> ha_yydb_core_deinit (rec_deinit r) cs = (0, cs @ [Rust_deinit])"
  by (simp add: ha_yydb_core_init_def ha_yydb_core_deinit_def rec_init_def rec_deinit_def
      split: prod.split)

text \<open>
  C9. \<^verbatim>\<open>ha_yydb_insert_row\<close> validates nothing: for every table id, row pointer and length
  (0 included) its effect is exactly the effect of the engine's \<^verbatim>\<open>insert_row\<close> on the same
  table id, the same address and the same length; the engine receives exactly one call,
  with these three values.
\<close>

theorem insert_row_forwards_unchanged:
  "ha_yydb_insert_row insert_row table_id row len w = insert_row table_id row len w
   \<and> ha_yydb_insert_row insert_row table_id row 0 w = insert_row table_id row 0 w
   \<and> ha_yydb_insert_row rec_insert_row table_id row len cs
       = cs @ [Insert_row table_id row len]"
  by (simp add: ha_yydb_insert_row_def rec_insert_row_def)

text \<open>
  C10. \<^verbatim>\<open>mysql_log_write\<close> hands the level unchanged, the address \<^verbatim>\<open>msg.data()\<close> and the
  length \<^verbatim>\<open>msg.size()\<close> to \<^verbatim>\<open>mysql_log_write_raw\<close>: its effect is that of the raw call on
  these three values; the sink receives exactly one call, and that call is the same
  whatever was logged before, so it depends on the two arguments only.
\<close>

theorem log_write_forwards_level_and_bytes:
  "mysql_log_write raw level msg w = raw level (data msg) (size_Str msg) w
   \<and> mysql_log_write rec_log_write_raw level msg cs
       = cs @ [Mysql_log_write_raw level (data msg) (size_Str msg)]
   \<and> last (mysql_log_write rec_log_write_raw level msg cs)
       = last (mysql_log_write rec_log_write_raw level msg cs')"
  by (simp add: mysql_log_write_def rec_log_write_raw_def)

text \<open>
  C1 (as amended). \<^verbatim>\<open>ha_yydb_core_init\<close> returns 0 whatever the engine's initialization
  yields: if \<^verbatim>\<open>rust_init\<close> ends with outcome \<open>r\<close> (a success or any failure) in state \<open>w'\<close>,
  then \<^verbatim>\<open>ha_yydb_core_init\<close> returns status 0 and leaves exactly the state \<open>w'\<close>. So a
  failed initialization that rolled the state back to Uninitialized stays rolled back, and
  the status does not tell a failure from a success.
\<close>

theorem core_init_status_ignores_outcome:
  "rust_init w = (r, w') \<Longrightarrow> ha_yydb_core_init rust_init w = (0, w')"
  by (simp add: ha_yydb_core_init_def)

text \<open>
  The claim as stated fails: in a fresh process whose subsystem construction fails, the
  engine's initialization fails with InitFailure and leaves the state Uninitialized, and
  \<^verbatim>\<open>ha_yydb_core_init\<close> still returns 0.
\<close>

theorem core_init_zero_on_init_failure:
  "fst (engine_rust_init False boot) = Inl InitFailure
   \<and> phase (snd (engine_rust_init False boot)) = Uninitialized
   \<and> fst (ha_yydb_core_init (engine_rust_init False) boot) = 0"
  by (simp add: ha_yydb_core_init_def engine_rust_init_def lifecycle_init_def boot_def)

theorem core_init_status_ignores_outcome_witness:
  "engine_rust_init False boot = (Inl InitFailure, boot)
   \<and> ha_yydb_core_init (engine_rust_init False) boot = (0, boot)"
proof -
  have f: "engine_rust_init False boot = (Inl InitFailure, boot)"
    by (simp add: engine_rust_init_def lifecycle_init_def boot_def)
  from core_init_status_ignores_outcome [of "engine_rust_init False" boot "Inl InitFailure" boot] f
  show ?thesis by simp
qed

section \<open>Properties of the engine as specified\<close>

subsection \<open>Lookups and failed operations\<close>

lemma registry_sink_write [simp]: "registry (sink_write l msg s) = registry s"
  by (simp add: sink_write_def)

lemma lookup_open: "h \<in> open_handles s \<Longrightarrow> \<exists>t. registry_lookup s h = Inr t"
  unfolding open_handles_def registry_lookup_def
  by (cases "map_of (registry s) h") (auto simp: map_of_eq_None_iff)

lemma lookup_not_open: "h \<notin> open_handles s \<Longrightarrow> registry_lookup s h = Inl UnknownHandle"
  unfolding open_handles_def registry_lookup_def
  by (cases "map_of (registry s) h") (auto simp: map_of_eq_None_iff[symmetric])

lemma insert_failure_keeps_state:
  "fst (pipeline_insert cfg stored h b n s) = Inl e \<Longrightarrow>
     snd (pipeline_insert cfg stored h b n s) = s"
  by (auto simp: pipeline_insert_def split: sum.splits if_splits)

lemma close_failure_keeps_state:
  "fst (registry_close h s) = Inl e \<Longrightarrow> snd (registry_close h s) = s"
  by (auto simp: registry_close_def split: sum.splits)

lemma closed_not_open: "h \<notin> open_handles (snd (registry_close h s))"
proof (cases "registry_lookup s h")
  case (Inl e)
  then have "map_of (registry s) h = None"
    by (simp add: registry_lookup_def split: option.splits)
  with Inl show ?thesis
    by (simp add: registry_close_def open_handles_def map_of_eq_None_iff)
next
  case (Inr t)
  then show ?thesis
    by (auto simp: registry_close_def open_handles_def)
qed

lemma one_table_reached:
  "snd (serve_all \<lparr>max_row_length = 16, exclusive_names = False\<rparr>
     [Init True, Open [116, 49] True, Insert 1 [97, 98, 99] 3 True] boot) = one_table"
  by (simp add: one_table_def boot_def lifecycle_init_def registry_open_def pipeline_insert_def
      registry_lookup_def append_row_def)

subsection \<open>Calls without a return channel\<close>

text \<open>
  C2. When the pipeline's insert behind \<^verbatim>\<open>insert_row\<close> fails with an error \<open>e\<close>, the call
  through the bridge returns (it yields a state and no error value), and that state is the
  state before the call with one more log record, of severity error, naming \<open>e\<close>; when
  the registry's close behind \<^verbatim>\<open>close_table\<close> fails with \<open>e'\<close>, likewise with one record of
  severity warn. Nothing else changes: the registry (handles, table states and their
  rows), the lifecycle state and the handle counter are those before the call.
\<close>

theorem void_calls_log_their_failures:
  "(fst (pipeline_insert cfg stored h (load m row (unat len)) (unat len) s) = Inl e \<longrightarrow>
      ha_yydb_insert_row (engine_insert_row cfg m stored) h row len s
        = s\<lparr>sink := sink s @ [\<lparr>severity = Error, message = error_text e\<rparr>]\<rparr>)
   \<and> (fst (registry_close h' s) = Inl e' \<longrightarrow>
      ha_yydb_close_table engine_close_table h' s
        = s\<lparr>sink := sink s @ [\<lparr>severity = Warn, message = error_text e'\<rparr>]\<rparr>)"
proof (intro conjI impI)
  assume a: "fst (pipeline_insert cfg stored h (load m row (unat len)) (unat len) s) = Inl e"
  then have "pipeline_insert cfg stored h (load m row (unat len)) (unat len) s = (Inl e, s)"
    using insert_failure_keeps_state [OF a] by (simp add: prod_eq_iff)
  then show "ha_yydb_insert_row (engine_insert_row cfg m stored) h row len s
        = s\<lparr>sink := sink s @ [\<lparr>severity = Error, message = error_text e\<rparr>]\<rparr>"
    by (simp add: ha_yydb_insert_row_def engine_insert_row_def sink_write_def)
next
  assume a: "fst (registry_close h' s) = Inl e'"
  then have "registry_close h' s = (Inl e', s)"
    using close_failure_keeps_state [OF a] by (simp add: prod_eq_iff)
  then show "ha_yydb_close_table engine_close_table h' s
        = s\<lparr>sink := sink s @ [\<lparr>severity = Warn, message = error_text e'\<rparr>]\<rparr>"
    by (simp add: ha_yydb_close_table_def engine_close_table_def sink_write_def)
qed

text \<open>An insert of 17 bytes where 16 are allowed, and a close of handle 5, which is not
  open: each leaves the example state as it was but for its log record.\<close>

theorem void_calls_log_their_failures_witness:
  "fst (pipeline_insert \<lparr>max_row_length = 16, exclusive_names = False\<rparr> True 1
          (load (\<lambda>a. 7) 4096 (unat (17 :: uint))) (unat (17 :: uint)) one_table) = Inl InvalidRow
   \<and> ha_yydb_insert_row (engine_insert_row \<lparr>max_row_length = 16, exclusive_names = False\<rparr>
          (\<lambda>a. 7) True) 1 4096 17 one_table
       = one_table\<lparr>sink := [\<lparr>severity = Error, message = ''invalid row''\<rparr>]\<rparr>
   \<and> fst (registry_close 5 one_table) = Inl UnknownHandle
   \<and> ha_yydb_close_table engine_close_table 5 one_table
       = one_table\<lparr>sink := [\<lparr>severity = Warn, message = ''unknown handle''\<rparr>]\<rparr>"
proof -
  have a: "fst (pipeline_insert \<lparr>max_row_length = 16, exclusive_names = False\<rparr> True 1
          (load (\<lambda>a. 7) 4096 (unat (17 :: uint))) (unat (17 :: uint)) one_table) = Inl InvalidRow"
    by (simp add: pipeline_insert_def registry_lookup_def one_table_def)
  have b: "fst (registry_close 5 one_table) = Inl UnknownHandle"
    by (simp add: registry_close_def registry_lookup_def one_table_def)
  from void_calls_log_their_failures
    [where cfg = "\<lparr>max_row_length = 16, exclusive_names = False\<rparr>"
      and stored = True and h = 1 and m = "\<lambda>a. 7" and row = 4096 and len = 17
      and s = one_table and e = InvalidRow and h' = 5 and e' = UnknownHandle] a b
  show ?thesis by (simp add: one_table_def)
qed

subsection \<open>Row validation\<close>

text \<open>
  C3. For every open handle \<open>h\<close>, an insert whose length is 0 or exceeds the configured
  maximum fails with InvalidRow and returns the state it was given, so the storage of
  every table is unchanged; the same call made through the bridge with that length leaves
  the state unchanged but for the logged error.
\<close>

theorem invalid_length_rejected:
  assumes "h \<in> open_handles s" and "len = 0 \<or> max_row_length cfg < len"
  shows "pipeline_insert cfg stored h bytes len s = (Inl InvalidRow, s)
    \<and> (unat wlen = len \<longrightarrow>
         ha_yydb_insert_row (engine_insert_row cfg m stored) h row wlen s
           = sink_write Error (error_text InvalidRow) s
         \<and> registry (ha_yydb_insert_row (engine_insert_row cfg m stored) h row wlen s)
           = registry s)"
proof -
  from lookup_open [OF assms(1)] obtain t where t: "registry_lookup s h = Inr t" ..
  with assms(2) have *: "\<And>b. pipeline_insert cfg stored h b len s = (Inl InvalidRow, s)"
    by (simp add: pipeline_insert_def)
  then show ?thesis
    by (auto simp: ha_yydb_insert_row_def engine_insert_row_def sink_write_def)
qed

theorem invalid_length_rejected_witness:
  "(1 :: TableHandle) \<in> open_handles one_table
   \<and> pipeline_insert \<lparr>max_row_length = 16, exclusive_names = False\<rparr> True 1 [] 0 one_table
       = (Inl InvalidRow, one_table)
   \<and> pipeline_insert \<lparr>max_row_length = 16, exclusive_names = False\<rparr> True 1
         (replicate 17 7) 17 one_table
       = (Inl InvalidRow, one_table)
   \<and> registry (ha_yydb_insert_row
         (engine_insert_row \<lparr>max_row_length = 16, exclusive_names = False\<rparr> (\<lambda>a. 7) True)
         1 4096 17 one_table)
       = [(1, \<lparr>table_name = [116, 49], rows = [[97, 98, 99]]\<rparr>)]"
proof -
  have o: "(1 :: TableHandle) \<in> open_handles one_table"
    by (simp add: open_handles_def one_table_def)
  have z: "(0 :: nat) = 0 \<or> max_row_length \<lparr>max_row_length = 16, exclusive_names = False\<rparr> < 0"
    by simp
  have l: "(17 :: nat) = 0 \<or> max_row_length \<lparr>max_row_length = 16, exclusive_names = False\<rparr> < 17"
    by simp
  have u: "unat (17 :: uint) = 17" by simp
  have r: "registry one_table = [(1, \<lparr>table_name = [116, 49], rows = [[97, 98, 99]]\<rparr>)]"
    by (simp add: one_table_def)
  from invalid_length_rejected [OF o z, where stored = True and bytes = "[]" and wlen = 0]
    invalid_length_rejected [OF o l, where stored = True and bytes = "replicate 17 7"
      and wlen = 17 and m = "\<lambda>a. 7" and row = 4096] o u r
  show ?thesis by simp
qed

subsection \<open>Handles that are not open\<close>

text \<open>
  C4. For every handle \<open>h\<close> that is not open in state \<open>s\<close>, insert and close both fail with
  UnknownHandle and return the state they were given; made through the bridge, the two
  calls return, having logged the failure. A handle that has been closed is such a handle:
  after \<open>close(h)\<close>, whatever its result, a further close or insert on \<open>h\<close> fails with
  UnknownHandle.
\<close>

theorem unknown_handle_rejected:
  "(h \<notin> open_handles s \<longrightarrow>
      pipeline_insert cfg stored h bytes n s = (Inl UnknownHandle, s)
      \<and> registry_close h s = (Inl UnknownHandle, s)
      \<and> ha_yydb_insert_row (engine_insert_row cfg m stored) h row len s
          = sink_write Error (error_text UnknownHandle) s
      \<and> ha_yydb_close_table engine_close_table h s
          = sink_write Warn (error_text UnknownHandle) s)
   \<and> fst (registry_close h (snd (registry_close h s))) = Inl UnknownHandle
   \<and> fst (pipeline_insert cfg stored h bytes n (snd (registry_close h s))) = Inl UnknownHandle"
proof -
  have *: "registry_lookup t h = Inl UnknownHandle \<Longrightarrow>
      pipeline_insert cfg stored h b k t = (Inl UnknownHandle, t)
      \<and> registry_close h t = (Inl UnknownHandle, t)" for t b k
    by (simp add: pipeline_insert_def registry_close_def)
  have "registry_lookup (snd (registry_close h s)) h = Inl UnknownHandle"
    by (rule lookup_not_open [OF closed_not_open])
  from * [OF this] have closed:
    "fst (registry_close h (snd (registry_close h s))) = Inl UnknownHandle"
    "fst (pipeline_insert cfg stored h bytes n (snd (registry_close h s))) = Inl UnknownHandle"
    by simp_all
  have "h \<notin> open_handles s \<Longrightarrow>
      pipeline_insert cfg stored h b k s = (Inl UnknownHandle, s)
      \<and> registry_close h s = (Inl UnknownHandle, s)" for b k
    by (rule * [OF lookup_not_open])
  then show ?thesis
    using closed
    by (simp add: ha_yydb_insert_row_def engine_insert_row_def ha_yydb_close_table_def
        engine_close_table_def)
qed

text \<open>Handle 5 was never issued in the example state; handle 1 is open there and is
  closed first.\<close>

theorem unknown_handle_rejected_witness:
  "(5 :: TableHandle) \<notin> open_handles one_table
   \<and> pipeline_insert \<lparr>max_row_length = 16, exclusive_names = False\<rparr> True 5 [100, 101, 102] 3
        one_table = (Inl UnknownHandle, one_table)
   \<and> registry_close 5 one_table = (Inl UnknownHandle, one_table)
   \<and> fst (registry_close 1 one_table) = Inr ()
   \<and> fst (pipeline_insert \<lparr>max_row_length = 16, exclusive_names = False\<rparr> True 1
        [100, 101, 102] 3 (snd (registry_close 1 one_table))) = Inl UnknownHandle"
proof -
  have o: "(5 :: TableHandle) \<notin> open_handles one_table"
    by (simp add: open_handles_def one_table_def)
  have c: "fst (registry_close 1 one_table) = Inr ()"
    by (simp add: registry_close_def registry_lookup_def one_table_def)
  from unknown_handle_rejected
    [where h = 5 and s = one_table and stored = True and bytes = "[100, 101, 102]" and n = 3
      and cfg = "\<lparr>max_row_length = 16, exclusive_names = False\<rparr>"]
    unknown_handle_rejected
    [where h = 1 and s = one_table and stored = True and bytes = "[100, 101, 102]" and n = 3
      and cfg = "\<lparr>max_row_length = 16, exclusive_names = False\<rparr>"] o c
  show ?thesis by simp
qed

subsection \<open>Handles are issued in increasing order\<close>

lemma unat_fresh: "n < 2 ^ 64 \<Longrightarrow> unat (word_of_nat n :: 64 word) = n"
  by (simp add: unat_of_nat)

lemma open_handles_sink_write [simp]: "open_handles (sink_write l msg s) = open_handles s"
  by (simp add: open_handles_def sink_write_def)

lemma next_handle_sink_write [simp]: "next_handle (sink_write l msg s) = next_handle s"
  by (simp add: sink_write_def)

lemma next_handle_close [simp]: "next_handle (snd (registry_close h s)) = next_handle s"
  by (simp add: registry_close_def split: sum.splits)

lemma open_handles_close: "open_handles (snd (registry_close h s)) \<subseteq> open_handles s"
  by (auto simp: registry_close_def open_handles_def split: sum.splits)

lemma next_handle_force_all [simp]: "next_handle (fold force_close hs s) = next_handle s"
  by (induction hs arbitrary: s) (simp_all add: force_close_def)

lemma open_handles_force_all: "open_handles (fold force_close hs s) \<subseteq> open_handles s"
proof (induction hs arbitrary: s)
  case Nil
  show ?case by simp
next
  case (Cons h hs)
  have "open_handles (fold force_close hs (force_close h s)) \<subseteq> open_handles (force_close h s)"
    by (rule Cons.IH)
  also have "\<dots> \<subseteq> open_handles s"
    using open_handles_close [of h s] by (simp add: force_close_def)
  finally show ?case by simp
qed

lemma fst_append_row [simp]: "fst (append_row h r e) = fst e"
  by (simp add: append_row_def)

lemma insert_open_handles:
  "open_handles (snd (pipeline_insert cfg st h b n s)) = open_handles s"
  by (simp add: pipeline_insert_def open_handles_def image_image split: sum.splits)

lemma deinit_open_handles:
  "open_handles (snd (lifecycle_deinit s)) \<subseteq> open_handles s"
proof (cases "phase s = Running")
  case True
  have "open_handles (fold force_close (map fst (registry s)) (s\<lparr>phase := Deinitializing\<rparr>))
      \<subseteq> open_handles (s\<lparr>phase := Deinitializing\<rparr>)"
    by (rule open_handles_force_all)
  with True show ?thesis
    by (simp add: lifecycle_deinit_def Let_def open_handles_def)
next
  case False
  then show ?thesis by (simp add: lifecycle_deinit_def)
qed



text \<open>What one request does to the counter and to the set of open handles.\<close>

lemma serve_counter:
  assumes "serve cfg q s = (r, s')"
  shows "next_handle s \<le> next_handle s'"
    and "r = Opened h \<Longrightarrow> unat h = next_handle s \<and> next_handle s < next_handle s'"
  using assms
  by (cases q; auto simp: lifecycle_init_def lifecycle_deinit_def registry_open_def
      registry_close_def pipeline_insert_def Let_def unat_fresh
      split: if_splits sum.splits prod.splits)+

lemma serve_open_handles:
  assumes "serve cfg q s = (r, s')" and "k \<in> open_handles s'"
  shows "k \<in> open_handles s \<or> unat k = next_handle s \<and> next_handle s < next_handle s'"
proof (cases q)
  case (Init c)
  with assms show ?thesis
    by (auto simp: lifecycle_init_def Let_def open_handles_def split: if_splits)
next
  case Deinit
  with assms have "s' = snd (lifecycle_deinit s)" by (auto split: prod.splits)
  with assms(2) deinit_open_handles [of s] show ?thesis by auto
next
  case (Open name a)
  show ?thesis
  proof (cases "fst (registry_open cfg a name s)")
    case (Inl e)
    then have "snd (registry_open cfg a name s) = s"
      by (auto simp: registry_open_def split: if_splits)
    with assms Open show ?thesis by (auto split: prod.splits)
  next
    case (Inr h)
    then have *: "next_handle s < 2 ^ 64" "h = word_of_nat (next_handle s)"
      "open_handles (snd (registry_open cfg a name s)) = insert h (open_handles s)"
      "next_handle (snd (registry_open cfg a name s)) = Suc (next_handle s)"
      by (auto simp: registry_open_def open_handles_def split: if_splits)
    from assms Open have "s' = snd (registry_open cfg a name s)" by (auto split: prod.splits)
    with assms(2) * show ?thesis by (auto simp: unat_fresh)
  qed
next
  case (Close h)
  with assms show ?thesis
    using open_handles_close [of h s] by (auto split: prod.splits)
next
  case (Insert h b n st)
  with assms have "s' = snd (pipeline_insert cfg st h b n s)" by (auto split: prod.splits)
  with assms(2) show ?thesis by (simp add: insert_open_handles)
qed



lemma serve_below_counter:
  assumes "serve cfg q s = (r, s')" and "below_counter s"
  shows "below_counter s'"
  unfolding below_counter_def
proof
  fix k assume "k \<in> open_handles s'"
  from serve_open_handles [OF assms(1) this] serve_counter(1) [OF assms(1)] assms(2)
  show "unat k < next_handle s'"
    by (auto simp: below_counter_def)
qed

lemma serve_all_below_counter:
  "serve_all cfg qs s = (rs, s') \<Longrightarrow> below_counter s \<Longrightarrow> below_counter s'"
proof (induction qs arbitrary: s rs)
  case Nil
  then show ?case by simp
next
  case (Cons q qs)
  obtain r s1 where 1: "serve cfg q s = (r, s1)" by (cases "serve cfg q s")
  obtain rs1 where 2: "serve_all cfg qs s1 = (rs1, s')"
    using Cons.prems(1) 1 by (cases "serve_all cfg qs s1") auto
  from Cons.IH [OF 2 serve_below_counter [OF 1 Cons.prems(2)]] show ?case .
qed

lemma serve_all_handles:
  "serve_all cfg qs s = (rs, s') \<Longrightarrow>
     next_handle s \<le> next_handle s'
     \<and> (\<forall>h \<in> set (handles_of rs). next_handle s \<le> unat h \<and> unat h < next_handle s')
     \<and> sorted_wrt (<) (handles_of rs)"
proof (induction qs arbitrary: s rs)
  case Nil
  then show ?case by auto
next
  case (Cons q qs)
  obtain r s1 where 1: "serve cfg q s = (r, s1)" by (cases "serve cfg q s")
  obtain rs1 where 2: "serve_all cfg qs s1 = (rs1, s')"
    using Cons.prems 1 by (cases "serve_all cfg qs s1") auto
  from Cons.prems 1 2 have rs: "rs = r # rs1" by simp
  note ih = Cons.IH [OF 2]
  note c = serve_counter [OF 1]
  show ?case
  proof (cases r)
    case (Opened h)
    with c(2) [of h] have h: "unat h = next_handle s" "next_handle s < next_handle s1" by auto
    from ih h show ?thesis
      unfolding rs Opened by (auto simp: word_less_nat_alt)
  next
    case Done
    with ih c(1) show ?thesis unfolding rs by auto
  next
    case (Failed e)
    with ih c(1) show ?thesis unfolding rs by auto
  qed
qed



lemma serve_stale:
  assumes "serve cfg q s = (r, s')" and "stale h s"
  shows "stale h s'" and "r \<noteq> Opened h"
proof -
  from serve_open_handles [OF assms(1), of h] serve_counter(1) [OF assms(1)] assms(2)
  show "stale h s'" by (auto simp: stale_def)
  from serve_counter(2) [OF assms(1), of h] assms(2)
  show "r \<noteq> Opened h" by (auto simp: stale_def)
qed

lemma serve_all_stale:
  "serve_all cfg qs s = (rs, s') \<Longrightarrow> stale h s \<Longrightarrow> stale h s' \<and> h \<notin> set (handles_of rs)"
proof (induction qs arbitrary: s rs)
  case Nil
  then show ?case by auto
next
  case (Cons q qs)
  obtain r s1 where 1: "serve cfg q s = (r, s1)" by (cases "serve cfg q s")
  obtain rs1 where 2: "serve_all cfg qs s1 = (rs1, s')"
    using Cons.prems(1) 1 by (cases "serve_all cfg qs s1") auto
  from Cons.prems 1 2 have rs: "rs = r # rs1" by simp
  from Cons.IH [OF 2 serve_stale(1) [OF 1 Cons.prems(2)]] serve_stale(2) [OF 1 Cons.prems(2)]
  show ?case unfolding rs by (cases r) auto
qed

lemma below_counter_boot: "below_counter boot"
  by (simp add: below_counter_def boot_def open_handles_def)

lemma close_done_stale:
  assumes "below_counter s" and "fst (registry_close h s) = Inr u"
  shows "stale h (snd (registry_close h s))"
proof -
  from assms(2) obtain t where "map_of (registry s) h = Some t"
    by (auto simp: registry_close_def registry_lookup_def split: sum.splits option.splits)
  then have "h \<in> open_handles s"
    unfolding open_handles_def by (metis map_of_SomeD fst_conv image_eqI)
  with assms(1) have "unat h < next_handle s" by (simp add: below_counter_def)
  moreover have "h \<notin> open_handles (snd (registry_close h s))"
    by (rule closed_not_open)
  ultimately show ?thesis by (simp add: stale_def)
qed


text \<open>
  C6. Within one process lifetime, that is, for every sequence of requests served from the
  initial state, the handles returned by the successful opens are strictly increasing in
  the order of the opens, so no handle value is returned twice. And once a close of \<open>h\<close>
  has succeeded, whatever requests follow, no later open returns \<open>h\<close> and looking \<open>h\<close> up
  fails with UnknownHandle: a stale handle never names a newer table.
\<close>

theorem handles_increase_and_stay_retired:
  "sorted_wrt (<) (handles_of (fst (serve_all cfg reqs boot)))
   \<and> distinct (handles_of (fst (serve_all cfg reqs boot)))
   \<and> (fst (serve cfg (Close h) (snd (serve_all cfg pre boot))) = Done \<longrightarrow>
        h \<notin> set (handles_of (fst (serve_all cfg post
                (snd (serve cfg (Close h) (snd (serve_all cfg pre boot)))))))
        \<and> registry_lookup (snd (serve_all cfg post
                (snd (serve cfg (Close h) (snd (serve_all cfg pre boot)))))) h
            = Inl UnknownHandle)"
proof (intro conjI impI)
  obtain rs s where run: "serve_all cfg reqs boot = (rs, s)"
    by (cases "serve_all cfg reqs boot")
  from serve_all_handles [OF run] have "sorted_wrt (<) (handles_of rs)" by simp
  with run show sorted: "sorted_wrt (<) (handles_of (fst (serve_all cfg reqs boot)))" by simp
  then show "distinct (handles_of (fst (serve_all cfg reqs boot)))"
    by (simp add: strict_sorted_iff)
next
  assume closed: "fst (serve cfg (Close h) (snd (serve_all cfg pre boot))) = Done"
  obtain r1 s1 where pre: "serve_all cfg pre boot = (r1, s1)"
    by (cases "serve_all cfg pre boot")
  have inv: "below_counter s1"
    by (rule serve_all_below_counter [OF pre below_counter_boot])
  from closed pre obtain u where "fst (registry_close h s1) = Inr u"
    by (cases "fst (registry_close h s1)") (auto split: prod.splits)
  from close_done_stale [OF inv this] have st: "stale h (snd (registry_close h s1))" .
  have s2: "snd (serve cfg (Close h) s1) = snd (registry_close h s1)"
    by (simp split: prod.splits)
  obtain r3 s3 where post: "serve_all cfg post (snd (registry_close h s1)) = (r3, s3)"
    by (cases "serve_all cfg post (snd (registry_close h s1))")
  from serve_all_stale [OF post st] have "stale h s3" "h \<notin> set (handles_of r3)" by simp_all
  then have "h \<notin> open_handles s3" by (simp add: stale_def)
  from lookup_not_open [OF this] \<open>h \<notin> set (handles_of r3)\<close> pre post s2
  show "h \<notin> set (handles_of (fst (serve_all cfg post
                (snd (serve cfg (Close h) (snd (serve_all cfg pre boot)))))))"
    and "registry_lookup (snd (serve_all cfg post
                (snd (serve cfg (Close h) (snd (serve_all cfg pre boot)))))) h
            = Inl UnknownHandle"
    by simp_all
qed

text \<open>The scenario of the specification's section 8, with a second table opened after the
  first was closed: the handles are 1 and 2, and the insert on the closed handle 1 fails.\<close>

theorem handles_increase_and_stay_retired_witness:
  "fst (serve \<lparr>max_row_length = 16, exclusive_names = False\<rparr> (Close 1)
        (snd (serve_all \<lparr>max_row_length = 16, exclusive_names = False\<rparr>
           [Init True, Open [116, 49] True, Insert 1 [97, 98, 99] 3 True] boot))) = Done
   \<and> fst (serve_all \<lparr>max_row_length = 16, exclusive_names = False\<rparr>
        [Init True, Open [116, 49] True, Insert 1 [97, 98, 99] 3 True, Close 1,
         Open [116, 50] True, Insert 1 [100, 101, 102] 3 True, Deinit] boot)
       = [Done, Opened 1, Done, Done, Opened 2, Failed UnknownHandle, Done]
   \<and> sorted_wrt (<) [1, 2 :: TableHandle]
   \<and> registry_lookup (snd (serve_all \<lparr>max_row_length = 16, exclusive_names = False\<rparr>
        [Open [116, 50] True]
        (snd (serve \<lparr>max_row_length = 16, exclusive_names = False\<rparr> (Close 1)
          (snd (serve_all \<lparr>max_row_length = 16, exclusive_names = False\<rparr>
             [Init True, Open [116, 49] True, Insert 1 [97, 98, 99] 3 True] boot)))))) 1
       = Inl UnknownHandle"
proof -
  let ?cfg = "\<lparr>max_row_length = 16, exclusive_names = False\<rparr>"
  let ?pre = "[Init True, Open [116, 49] True, Insert 1 [97, 98, 99] 3 True]"
  let ?all = "[Init True, Open [116, 49] True, Insert 1 [97, 98, 99] 3 True, Close 1,
         Open [116, 50] True, Insert 1 [100, 101, 102] 3 True, Deinit]"
  have c: "fst (serve ?cfg (Close 1) (snd (serve_all ?cfg ?pre boot))) = Done"
    unfolding one_table_reached
    by (simp add: one_table_def registry_close_def registry_lookup_def)
  have run: "fst (serve_all ?cfg ?all boot)
       = [Done, Opened 1, Done, Done, Opened 2, Failed UnknownHandle, Done]"
    by (simp add: boot_def lifecycle_init_def registry_open_def pipeline_insert_def
      registry_lookup_def append_row_def registry_close_def lifecycle_deinit_def force_close_def
      sink_write_def)
  from handles_increase_and_stay_retired
    [where cfg = ?cfg and reqs = ?all and pre = ?pre and h = 1 and post = "[Open [116, 50] True]"]
    c run
  show ?thesis by simp
qed

end
